theory Spec2Isabelle
  imports Complex_Main "HOL-Library.Word" "HOL-Library.Sublist"
begin

section \<open>The float64 quantities of the loan entity\<close>

text \<open>
  Principal, rates and investment amounts are Go \<^verbatim>\<open>float64\<close> values (IEEE 754 binary64).
  A value is NaN, one of the two infinities, or a finite number, carried here as the
  rational it denotes. The finite doubles are the rationals \<open>m * 2^e\<close> with
  \<open>\<bar>m\<bar> < 2^53\<close> and \<open>-1074 \<le> e \<le> 971\<close>; every arithmetic result below is brought
  back to them by \<open>round64\<close>. What is proved below for all values of the type holds
  in particular for the doubles. The two zeros are one value: the entity only adds,
  subtracts, compares and truncates, and none of these tells \<open>-0\<close> from \<open>+0\<close>.
\<close>

datatype float64 = NaN | PInf | NInf | Fin rat

definition pow2 :: "int \<Rightarrow> rat" where
  "pow2 e = (if 0 \<le> e then 2 ^ nat e else 1 / 2 ^ nat (- e))"

text \<open>The number of binary digits of a positive integer.\<close>

function bits :: "int \<Rightarrow> int" where
  "bits n = (if n \<le> 0 then 0 else 1 + bits (n div 2))"
  by pat_completeness auto
termination
  by (relation "measure nat") auto

declare bits.simps [simp del]

text \<open>\<open>ilog2 q\<close> is the binary exponent of a positive rational: \<open>2^(ilog2 q) \<le> q < 2^(ilog2 q + 1)\<close>.\<close>

definition ilog2 :: "rat \<Rightarrow> int" where
  "ilog2 q = (if 1 \<le> q then bits \<lfloor>q\<rfloor> - 1 else - bits (\<lceil>1 / q\<rceil> - 1))"

text \<open>Rounding a rational to the nearest integer, a tie going to the even neighbour.\<close>

definition rne :: "rat \<Rightarrow> int" where
  "rne x = (let f = \<lfloor>x\<rfloor>; d = x - of_int f in
            if d < 1 / 2 then f
            else if 1 / 2 < d then f + 1
            else if even f then f else f + 1)"

text \<open>
  Round to nearest, ties to even, on 53 significant bits with the exponent range of
  binary64: subnormal below \<open>2^-1022\<close>, overflow to an infinity when the rounded value
  reaches \<open>2^1024\<close>, that is when its binary exponent is at least 1024.
\<close>

definition round64 :: "rat \<Rightarrow> float64" where
  "round64 q =
     (if q = 0 then Fin 0
      else let e = max (ilog2 \<bar>q\<bar>) (- 1022) - 52;
               r = of_int (rne (q / pow2 e)) * pow2 e
           in if 1024 \<le> ilog2 \<bar>r\<bar> then (if 0 < q then PInf else NInf) else Fin r)"

fun fadd :: "float64 \<Rightarrow> float64 \<Rightarrow> float64" where
  "fadd NaN _ = NaN"
| "fadd _ NaN = NaN"
| "fadd PInf NInf = NaN"
| "fadd NInf PInf = NaN"
| "fadd PInf _ = PInf"
| "fadd _ PInf = PInf"
| "fadd NInf _ = NInf"
| "fadd _ NInf = NInf"
| "fadd (Fin a) (Fin b) = round64 (a + b)"

fun fsub :: "float64 \<Rightarrow> float64 \<Rightarrow> float64" where
  "fsub NaN _ = NaN"
| "fsub _ NaN = NaN"
| "fsub PInf PInf = NaN"
| "fsub NInf NInf = NaN"
| "fsub PInf _ = PInf"
| "fsub _ NInf = PInf"
| "fsub NInf _ = NInf"
| "fsub _ PInf = NInf"
| "fsub (Fin a) (Fin b) = round64 (a - b)"

text \<open>The comparisons of Go: every comparison with NaN is false.\<close>

fun fle :: "float64 \<Rightarrow> float64 \<Rightarrow> bool" where
  "fle NaN _ = False"
| "fle _ NaN = False"
| "fle NInf _ = True"
| "fle _ PInf = True"
| "fle PInf _ = False"
| "fle _ NInf = False"
| "fle (Fin a) (Fin b) = (a \<le> b)"

fun flt :: "float64 \<Rightarrow> float64 \<Rightarrow> bool" where
  "flt NaN _ = False"
| "flt _ NaN = False"
| "flt PInf _ = False"
| "flt _ NInf = False"
| "flt NInf _ = True"
| "flt _ PInf = True"
| "flt (Fin a) (Fin b) = (a < b)"

definition fgt :: "float64 \<Rightarrow> float64 \<Rightarrow> bool" where
  "fgt x y = flt y x"

definition feq :: "float64 \<Rightarrow> float64 \<Rightarrow> bool" where
  "feq x y = (x \<noteq> NaN \<and> x = y)"

text \<open>
  The conversion \<^verbatim>\<open>rune(x)\<close> of a float64 to \<^verbatim>\<open>int32\<close> discards the fraction. Where the
  truncated value does not fit (and for NaN and the infinities) Go leaves the result to
  the implementation; the model takes \<open>-2^31\<close>, the result on amd64.
\<close>

definition trunc0 :: "rat \<Rightarrow> int" where
  "trunc0 q = (if 0 \<le> q then \<lfloor>q\<rfloor> else \<lceil>q\<rceil>)"

fun float64_to_int32 :: "float64 \<Rightarrow> int" where
  "float64_to_int32 (Fin q) =
     (if - (2 ^ 31) \<le> trunc0 q \<and> trunc0 q < 2 ^ 31 then trunc0 q else - (2 ^ 31))"
| "float64_to_int32 _ = - (2 ^ 31)"

text \<open>
  The conversion \<^verbatim>\<open>string(r)\<close> of a rune: the UTF-8 encoding of the code point \<open>r\<close>, and
  the encoding of U+FFFD for a value that is not a code point (negative, a surrogate, or
  above U+10FFFF). A \<open>string\<close> is a list of bytes, as in Go.
\<close>

definition byte :: "int \<Rightarrow> char" where
  "byte n = char_of n"

definition string_of_rune :: "int \<Rightarrow> string" where
  "string_of_rune r =
     (if 0 \<le> r \<and> r < 128 then [byte r]
      else if 0 \<le> r \<and> r < 2048 then [byte (192 + r div 64), byte (128 + r mod 64)]
      else if r < 0 \<or> 1114111 < r \<or> (55296 \<le> r \<and> r \<le> 57343)
        then [byte 239, byte 191, byte 189]
      else if r < 65536
        then [byte (224 + r div 4096), byte (128 + r div 64 mod 64), byte (128 + r mod 64)]
      else [byte (240 + r div 262144), byte (128 + r div 4096 mod 64),
            byte (128 + r div 64 mod 64), byte (128 + r mod 64)])"

section \<open>The loan entity\<close>

type_synonym LoanState = string

definition StateProposed :: LoanState where "StateProposed = ''proposed''"
definition StateApproved :: LoanState where "StateApproved = ''approved''"
definition StateInvested :: LoanState where "StateInvested = ''invested''"
definition StateDisbursed :: LoanState where "StateDisbursed = ''disbursed''"

text \<open>An instant (\<^verbatim>\<open>time.Time\<close>), as a count of nanoseconds.\<close>

type_synonym Time = int

text \<open>An \<^verbatim>\<open>error\<close> built by \<^verbatim>\<open>errors.New\<close> is its message; \<open>None\<close> is \<^verbatim>\<open>nil\<close>.\<close>

type_synonym error = string

record Loan =
  ID :: "64 word"
  BorrowerIDNumber :: string
  PrincipalAmount :: float64
  Rate :: float64
  ROI :: float64
  State :: LoanState
  AgreementLetterLink :: string
  CreatedAt :: Time
  UpdatedAt :: Time
  ApprovalProofPicture :: "string option"
  ApprovalEmployeeID :: "string option"
  ApprovalDate :: "Time option"
  SignedAgreementDoc :: "string option"
  DisbursementEmployeeID :: "string option"
  DisbursementDate :: "Time option"

text \<open>
  The methods take the loan by pointer and mutate it; the model returns the loan as it is
  after the call next to the error. The reading of the clock, \<^verbatim>\<open>time.Now()\<close>, is the
  argument \<open>now\<close>.
\<close>

definition CanBeApproved :: "Loan \<Rightarrow> error option" where
  "CanBeApproved l =
     (if State l \<noteq> StateProposed
      then Some ''loan can only be approved from proposed state''
      else None)"

definition Approve :: "Loan \<Rightarrow> string \<Rightarrow> string \<Rightarrow> Time \<Rightarrow> Time \<Rightarrow> error option \<times> Loan" where
  "Approve l proofPicture employeeID approvalDate now =
     (case CanBeApproved l of
        Some err \<Rightarrow> (Some err, l)
      | None \<Rightarrow>
          (None, l\<lparr>State := StateApproved,
                   ApprovalProofPicture := Some proofPicture,
                   ApprovalEmployeeID := Some employeeID,
                   ApprovalDate := Some approvalDate,
                   UpdatedAt := now\<rparr>))"

definition CanReceiveInvestment :: "Loan \<Rightarrow> error option" where
  "CanReceiveInvestment l =
     (if State l \<noteq> StateApproved \<and> State l \<noteq> StateInvested
      then Some ''loan must be approved or already partially invested to receive investments''
      else None)"

definition ValidateInvestmentAmount :: "Loan \<Rightarrow> float64 \<Rightarrow> float64 \<Rightarrow> error option" where
  "ValidateInvestmentAmount l amount currentTotalInvestment =
     (if fle amount (Fin 0) then Some ''investment amount must be greater than zero''
      else if fgt (fadd currentTotalInvestment amount) (PrincipalAmount l) then
        (let remaining = fsub (PrincipalAmount l) currentTotalInvestment in
         Some (''investment amount exceeds remaining loan amount: '' @
               ''remaining '' @ string_of_rune (float64_to_int32 remaining)))
      else None)"

definition MarkAsInvested :: "Loan \<Rightarrow> Time \<Rightarrow> Loan" where
  "MarkAsInvested l now =
     (if State l = StateApproved
      then l\<lparr>State := StateInvested, UpdatedAt := now\<rparr>
      else l)"

definition CanBeDisbursed :: "Loan \<Rightarrow> error option" where
  "CanBeDisbursed l =
     (if State l \<noteq> StateInvested
      then Some ''loan can only be disbursed from invested state''
      else None)"

definition Disburse :: "Loan \<Rightarrow> string \<Rightarrow> string \<Rightarrow> Time \<Rightarrow> Time \<Rightarrow> error option \<times> Loan" where
  "Disburse l signedAgreementDoc employeeID disbursementDate now =
     (case CanBeDisbursed l of
        Some err \<Rightarrow> (Some err, l)
      | None \<Rightarrow>
          (None, l\<lparr>State := StateDisbursed,
                   SignedAgreementDoc := Some signedAgreementDoc,
                   DisbursementEmployeeID := Some employeeID,
                   DisbursementDate := Some disbursementDate,
                   UpdatedAt := now\<rparr>))"

definition IsFullyInvested :: "Loan \<Rightarrow> float64 \<Rightarrow> bool" where
  "IsFullyInvested l totalInvestment = feq totalInvestment (PrincipalAmount l)"

definition GetRemainingAmount :: "Loan \<Rightarrow> float64 \<Rightarrow> float64" where
  "GetRemainingAmount l totalInvestment =
     (let remaining = fsub (PrincipalAmount l) totalInvestment in
      if flt remaining (Fin 0) then Fin 0 else remaining)"


section \<open>The ledger and the promotion of a fully funded loan\<close>

text \<open>
  The total an admission is checked against is what the repository returns for the loan:
  \<^verbatim>\<open>SELECT COALESCE(SUM(amount), 0) FROM investments WHERE loan_id = ?\<close>. The rows of
  the loan are the list of their amounts. The aggregate \<^verbatim>\<open>SUM\<close> is computed by the
  database engine and not by the repository, so it is the parameter \<open>sumAgg\<close>; on no rows
  it is NULL and \<^verbatim>\<open>COALESCE\<close> gives 0.
\<close>

definition GetTotalByLoanID :: "(float64 list \<Rightarrow> float64) \<Rightarrow> float64 list \<Rightarrow> float64" where
  "GetTotalByLoanID sumAgg stored = (if stored = [] then Fin 0 else sumAgg stored)"

text \<open>
  \<open>admit_all sumAgg l stored amounts\<close>: every amount of the list passes
  \<open>ValidateInvestmentAmount\<close> against the repository's total of the amounts stored before
  it, and is stored in its turn.
\<close>

fun admit_all :: "(float64 list \<Rightarrow> float64) \<Rightarrow> Loan \<Rightarrow> float64 list \<Rightarrow> float64 list \<Rightarrow> bool" where
  "admit_all sumAgg l stored [] = True"
| "admit_all sumAgg l stored (a # rest) =
     (ValidateInvestmentAmount l a (GetTotalByLoanID sumAgg stored) = None
      \<and> admit_all sumAgg l (stored @ [a]) rest)"

text \<open>
  Modelled from the spec: the orchestration step \<^verbatim>\<open>promoteIfFullyFunded\<close> belongs to the
  use-case package, which is not among the source files. The specification gives it as:
  legal only if the state is approved and the total equals the principal exactly; on
  success the state becomes invested; otherwise a no-op. It is written here on the
  entity's own \<open>IsFullyInvested\<close> and \<open>MarkAsInvested\<close>.
\<close>

definition promoteIfFullyFunded :: "Loan \<Rightarrow> float64 \<Rightarrow> Time \<Rightarrow> Loan" where
  "promoteIfFullyFunded l totalInvested now =
     (if State l = StateApproved \<and> IsFullyInvested l totalInvested
      then MarkAsInvested l now
      else l)"

section \<open>The order of the lifecycle states\<close>

definition state_rank :: "LoanState \<Rightarrow> nat option" where
  "state_rank s =
     (if s = StateProposed then Some 0
      else if s = StateApproved then Some 1
      else if s = StateInvested then Some 2
      else if s = StateDisbursed then Some 3
      else None)"

text \<open>
  \<open>state_le s t\<close>: \<open>t\<close> is \<open>s\<close> or a later stage. A state string that is none of the
  four constants is comparable with itself only.
\<close>

definition state_le :: "LoanState \<Rightarrow> LoanState \<Rightarrow> bool" where
  "state_le s t =
     (s = t \<or> (case (state_rank s, state_rank t) of (Some i, Some j) \<Rightarrow> i < j | _ \<Rightarrow> False))"

section \<open>The approve handler\<close>

record FileHeader =
  Filename :: string
  Size :: int

record ApproveLoanParams =
  ProofPicture :: string
  EmployeeID :: string
  ApprovalDate :: Time

text \<open>
  What the handler reads from the request: the path parameter, the two form fields and
  the uploaded file (\<open>None\<close> when \<^verbatim>\<open>FormFile\<close> returns an error).
\<close>

record ApproveLoanForm =
  id_param :: string
  employee_id :: string
  approval_date :: string
  proof_picture :: "FileHeader option"

text \<open>
  The handler's collaborators are parameters: the library functions
  \<^verbatim>\<open>strconv.ParseInt(s, 10, 64)\<close>, \<^verbatim>\<open>filepath.Ext\<close>, \<^verbatim>\<open>strings.ToLower\<close> and
  \<^verbatim>\<open>time.Parse("2006-01-02 15:04:05", s)\<close>, the writing of the uploaded file, and the
  injected use case \<^verbatim>\<open>loanUsecase.ApproveLoan\<close>. The last two act on a world \<open>'w\<close>
  (the upload directory and the store) and return it updated.
\<close>

record 'w Collaborators =
  parseInt :: "string \<Rightarrow> 64 word option"
  fileExt :: "string \<Rightarrow> string"
  toLower :: "string \<Rightarrow> string"
  parseTime :: "string \<Rightarrow> Time option"
  saveUploadedFile :: "'w \<Rightarrow> FileHeader \<Rightarrow> 64 word \<Rightarrow> string \<Rightarrow> string \<Rightarrow> (error + string) \<times> 'w"
  loanUsecase_ApproveLoan :: "'w \<Rightarrow> 64 word \<Rightarrow> ApproveLoanParams \<Rightarrow> (error + Loan) \<times> 'w"

text \<open>
  The response DTO of a loan. Its fields carry the names of the loan's fields in the
  source; here they are prefixed, the names being taken by the record of the loan.
\<close>

record LoanResponse =
  resp_ID :: "64 word"
  resp_BorrowerIDNumber :: string
  resp_PrincipalAmount :: float64
  resp_Rate :: float64
  resp_ROI :: float64
  resp_State :: string
  resp_AgreementLetterLink :: string
  resp_CreatedAt :: Time
  resp_UpdatedAt :: Time
  resp_ApprovalProofPictureURL :: "string option"
  resp_ApprovalEmployeeID :: "string option"
  resp_ApprovalDate :: "Time option"
  resp_SignedAgreementDocURL :: "string option"
  resp_DisbursementEmployeeID :: "string option"
  resp_DisbursementDate :: "Time option"

definition BaseFileURL :: string where
  "BaseFileURL = ''http://localhost:8080/files''"

text \<open>A file name that is present and not empty becomes a URL under \<open>BaseFileURL\<close>.\<close>

definition file_url :: "string \<Rightarrow> string option \<Rightarrow> string option" where
  "file_url directory name =
     (case name of
        None \<Rightarrow> None
      | Some n \<Rightarrow> if n \<noteq> [] then Some (BaseFileURL @ ''/'' @ directory @ ''/'' @ n) else None)"

definition toLoanResponse :: "Loan \<Rightarrow> LoanResponse" where
  "toLoanResponse loan =
     \<lparr>resp_ID = ID loan,
      resp_BorrowerIDNumber = BorrowerIDNumber loan,
      resp_PrincipalAmount = PrincipalAmount loan,
      resp_Rate = Rate loan,
      resp_ROI = ROI loan,
      resp_State = State loan,
      resp_AgreementLetterLink = AgreementLetterLink loan,
      resp_CreatedAt = CreatedAt loan,
      resp_UpdatedAt = UpdatedAt loan,
      resp_ApprovalProofPictureURL = file_url ''proof_pictures'' (ApprovalProofPicture loan),
      resp_ApprovalEmployeeID = ApprovalEmployeeID loan,
      resp_ApprovalDate = Loan.ApprovalDate loan,
      resp_SignedAgreementDocURL = file_url ''signed_agreements'' (SignedAgreementDoc loan),
      resp_DisbursementEmployeeID = DisbursementEmployeeID loan,
      resp_DisbursementDate = DisbursementDate loan\<rparr>"

datatype Body = ErrorBody string | LoanBody LoanResponse

type_synonym Response = "nat \<times> Body"

fun join :: "string list \<Rightarrow> string \<Rightarrow> string" where
  "join [] sep = []"
| "join [x] sep = x"
| "join (x # y # ys) sep = x @ sep @ join (y # ys) sep"

definition validateUploadedFile ::
  "'w Collaborators \<Rightarrow> FileHeader \<Rightarrow> string list \<Rightarrow> string \<Rightarrow> error option" where
  "validateUploadedFile deps header allowedExts fileType =
     (if Size header > 5 * 1024 * 1024
      then Some (fileType @ '' file size must not exceed 5MB'')
      else let ext = toLower deps (fileExt deps (Filename header)) in
           if ext \<in> set allowedExts then None
           else Some (fileType @ '' must be one of the following file types: '' @
                      join allowedExts '', ''))"

definition validateEmployeeIDAndDateFormat ::
  "'w Collaborators \<Rightarrow> string \<Rightarrow> string \<Rightarrow> error + Time" where
  "validateEmployeeIDAndDateFormat deps employeeID dateField =
     (if length employeeID < 3 then Inl ''employee ID must be at least 3 characters''
      else case parseTime deps dateField of
             None \<Rightarrow> Inl ''date must be in YYYY-MM-DD HH:MM:SS format (e.g., 2023-12-25 10:30:00)''
           | Some parsedDate \<Rightarrow> Inr parsedDate)"

definition ApproveLoan :: "'w Collaborators \<Rightarrow> ApproveLoanForm \<Rightarrow> 'w \<Rightarrow> Response \<times> 'w" where
  "ApproveLoan deps req w =
     (case parseInt deps (id_param req) of
        None \<Rightarrow> ((400, ErrorBody ''Invalid loan ID''), w)
      | Some loanID \<Rightarrow>
     (case proof_picture req of
        None \<Rightarrow> ((400, ErrorBody ''proof_picture file is required''), w)
      | Some header \<Rightarrow>
     (case validateUploadedFile deps header [''.jpg'', ''.jpeg'', ''.png''] ''proof picture'' of
        Some err \<Rightarrow> ((400, ErrorBody err), w)
      | None \<Rightarrow>
     (case validateEmployeeIDAndDateFormat deps (employee_id req) (approval_date req) of
        Inl err \<Rightarrow> ((400, ErrorBody err), w)
      | Inr parsedApprovalDate \<Rightarrow>
     (case saveUploadedFile deps w header loanID ''proof_pictures'' ''proof'' of
        (Inl err, w1) \<Rightarrow> ((500, ErrorBody ''Failed to save proof picture''), w1)
      | (Inr proofPicturePath, w1) \<Rightarrow>
     (case loanUsecase_ApproveLoan deps w1 loanID
             \<lparr>ProofPicture = proofPicturePath, EmployeeID = employee_id req,
              ApprovalDate = parsedApprovalDate\<rparr> of
        (Inl err, w2) \<Rightarrow>
          if err = ''loan not found'' then ((404, ErrorBody err), w2)
          else ((400, ErrorBody err), w2)
      | (Inr loan, w2) \<Rightarrow> ((200, LoanBody (toLoanResponse loan)), w2)))))))"

text \<open>
  The number of characters of an identifier: the bytes of a UTF-8 string that do not
  continue a sequence (those outside \<open>0x80 .. 0xBF\<close>), one per encoded code point.
\<close>

definition characters :: "string \<Rightarrow> nat" where
  "characters s = length (filter (\<lambda>c. \<not> (128 \<le> (of_char c :: nat) \<and> (of_char c :: nat) < 192)) s)"

section \<open>Example values\<close>

text \<open>A loan with the given principal and state, and no evidence recorded.\<close>

definition example_loan :: "rat \<Rightarrow> LoanState \<Rightarrow> Loan" where
  "example_loan p s =
     \<lparr>ID = 1, BorrowerIDNumber = ''1234567890123456'', PrincipalAmount = Fin p,
      Rate = Fin 10, ROI = Fin 8, State = s,
      AgreementLetterLink = ''http://example.com/agreement.pdf'',
      CreatedAt = 0, UpdatedAt = 0,
      ApprovalProofPicture = None, ApprovalEmployeeID = None, ApprovalDate = None,
      SignedAgreementDoc = None, DisbursementEmployeeID = None, DisbursementDate = None\<rparr>"

text \<open>
  Collaborators for a world that counts the calls of the use case: every identifier
  parses to 7, every file is a \<^verbatim>\<open>.png\<close>, every date parses, saving succeeds, and the use
  case answers with an approved loan.
\<close>

definition example_deps :: "nat Collaborators" where
  "example_deps =
     \<lparr>parseInt = (\<lambda>s. Some 7),
      fileExt = (\<lambda>s. ''.png''),
      toLower = (\<lambda>s. s),
      parseTime = (\<lambda>s. Some 1700000000),
      saveUploadedFile = (\<lambda>w h i d p. (Inr ''uploads/proof_pictures/loan_7_proof_1.png'', w)),
      loanUsecase_ApproveLoan =
        (\<lambda>w i ps. (Inr (example_loan 1000000 StateApproved), Suc w))\<rparr>"

definition example_form :: "string \<Rightarrow> ApproveLoanForm" where
  "example_form emp =
     \<lparr>id_param = ''7'', employee_id = emp, approval_date = ''2023-12-25 10:30:00'',
      proof_picture = Some \<lparr>Filename = ''proof.png'', Size = 1024\<rparr>\<rparr>"


section \<open>Facts about the float64 operations and the entity\<close>

text \<open>
  The rounding on known values: the doubles nearest to 0.1 and 0.3, the sum of the
  doubles 0.1 and 0.2 (which is not the double 0.3), ties at \<open>2^53\<close> going to the even
  neighbour, and additions to 1,000,000, where neighbouring doubles are \<open>2^-33\<close> apart.
\<close>

lemma round64_examples:
  "round64 (1 / 10) = Fin (3602879701896397 / 2 ^ 55)"
  "round64 (3 / 10) = Fin (5404319552844595 / 2 ^ 54)"
  "round64 (3602879701896397 / 2 ^ 55 + 3602879701896397 / 2 ^ 54) =
     Fin (5404319552844596 / 2 ^ 54)"
  "round64 (2 ^ 53 + 1) = Fin (2 ^ 53)"
  "round64 (2 ^ 53 + 3) = Fin (2 ^ 53 + 4)"
  "round64 (1000000 + 1 / 2 ^ 35) = Fin 1000000"
  "round64 (1000000 + 1 / 2 ^ 34) = Fin 1000000"
  "round64 (1000000 + 3 / 2 ^ 35) = Fin (1000000 + 1 / 2 ^ 33)"
  by code_simp+

subsection \<open>The rounding function\<close>

text \<open>
  \<open>bits\<close> and \<open>ilog2\<close> compute the binary exponent, \<open>rne\<close> is within one half of its
  argument, and so \<open>round64\<close> is within half a unit in the last place. It is exact on the
  integers up to \<open>2^53\<close> and never takes a value from \<open>2^53\<close> upwards below \<open>2^53\<close>.
\<close>

lemma bits_nonneg: "0 \<le> bits n"
proof (induction n rule: bits.induct)
  case (1 n)
  show ?case
  proof (cases "n \<le> 0")
    case True
    then show ?thesis by (simp add: bits.simps)
  next
    case False
    with "1" have "0 \<le> bits (n div 2)" by simp
    with False show ?thesis by (simp add: bits.simps)
  qed
qed

lemma bits_bounds: "0 < n \<Longrightarrow> 2 ^ nat (bits n - 1) \<le> n \<and> n < 2 ^ nat (bits n)"
proof (induction n rule: bits.induct)
  case (1 n)
  let ?m = "n div 2"
  from "1.prems" have step: "bits n = 1 + bits ?m" by (simp add: bits.simps)
  show ?case
  proof (cases "?m = 0")
    case True
    with "1.prems" have "n = 1" by presburger
    moreover have "bits (0::int) = 0" by (simp add: bits.simps)
    ultimately show ?thesis using step True by simp
  next
    case False
    with "1.prems" have mpos: "0 < ?m" by presburger
    with "1.IH" "1.prems" have IH: "2 ^ nat (bits ?m - 1) \<le> ?m" "?m < 2 ^ nat (bits ?m)"
      by simp_all
    from mpos have bpos: "0 < bits ?m"
      using bits_nonneg [of "?m div 2"] by (simp add: bits.simps [of ?m])
    then have e1: "nat (bits ?m) = Suc (nat (bits ?m - 1))" by simp
    have "(2::int) ^ nat (bits ?m) = 2 * 2 ^ nat (bits ?m - 1)"
      by (subst e1) simp
    with IH(1) have lo: "2 ^ nat (bits ?m) \<le> 2 * ?m" by simp
    have "2 * ?m \<le> n" by presburger
    with lo have lo': "2 ^ nat (bits n - 1) \<le> n" using step by simp
    from IH(2) have "?m + 1 \<le> 2 ^ nat (bits ?m)" by simp
    then have "2 * ?m + 2 \<le> 2 * 2 ^ nat (bits ?m)" by simp
    moreover have "n < 2 * ?m + 2" by presburger
    moreover have "nat (bits n) = Suc (nat (bits ?m))"
      using step bits_nonneg [of ?m] by simp
    ultimately have "n < 2 ^ nat (bits n)" by simp
    with lo' show ?thesis by simp
  qed
qed

lemma pow2_pos: "0 < pow2 e"
  by (simp add: pow2_def)

lemma pow2_add: "pow2 (a + b) = pow2 a * pow2 b"
proof -
  have "pow2 e = 2 powi e" for e
    by (simp add: pow2_def power_int_def field_simps)
  then show ?thesis by (simp add: power_int_add)
qed

lemma pow2_mono: "a \<le> b \<Longrightarrow> pow2 a \<le> pow2 b"
proof -
  have "pow2 e = 2 powi e" for e
    by (simp add: pow2_def power_int_def field_simps)
  then show "a \<le> b \<Longrightarrow> pow2 a \<le> pow2 b"
    by (simp add: power_int_increasing)
qed

lemma ilog2_bounds:
  assumes "0 < q"
  shows "pow2 (ilog2 q) \<le> q \<and> q < pow2 (ilog2 q + 1)"
proof (cases "1 \<le> q")
  case True
  let ?n = "\<lfloor>q\<rfloor>"
  from True have npos: "0 < ?n" by simp
  from bits_bounds [OF npos] have b: "2 ^ nat (bits ?n - 1) \<le> ?n" "?n < 2 ^ nat (bits ?n)"
    by simp_all
  have bp: "0 < bits ?n"
    using npos bits_nonneg [of "?n div 2"] by (simp add: bits.simps [of ?n])
  have il: "ilog2 q = bits ?n - 1" using True by (simp add: ilog2_def)
  have "pow2 (bits ?n - 1) = of_int (2 ^ nat (bits ?n - 1))"
    using bp by (simp add: pow2_def)
  also have "\<dots> \<le> of_int ?n" using b(1) by (simp only: of_int_le_iff)
  also have "\<dots> \<le> q" by simp
  finally have lo: "pow2 (ilog2 q) \<le> q" using il by simp
  from b(2) have "?n + 1 \<le> 2 ^ nat (bits ?n)" by simp
  then have "(of_int (?n + 1) :: rat) \<le> of_int (2 ^ nat (bits ?n))"
    by (simp only: of_int_le_iff)
  moreover have "q < of_int (?n + 1)" by linarith
  moreover have "pow2 (bits ?n) = of_int (2 ^ nat (bits ?n))"
    using bp by (simp add: pow2_def)
  ultimately have "q < pow2 (ilog2 q + 1)" using il by simp
  with lo show ?thesis by simp
next
  case False
  let ?c = "\<lceil>1 / q\<rceil>"
  let ?k = "bits (?c - 1)"
  from False assms have inv: "1 < 1 / q" by (simp add: field_simps)
  then have c2: "2 \<le> ?c" by linarith
  then have cpos: "0 < ?c - 1" by simp
  from bits_bounds [OF cpos] have b: "2 ^ nat (?k - 1) \<le> ?c - 1" "?c - 1 < 2 ^ nat ?k"
    by simp_all
  have kp: "0 < ?k"
    using cpos bits_nonneg [of "(?c - 1) div 2"] by (simp add: bits.simps [of "?c - 1"])
  have il: "ilog2 q = - ?k" using False by (simp add: ilog2_def)
  have "1 / q \<le> of_int ?c" by simp
  also have "(of_int ?c :: rat) \<le> of_int (2 ^ nat ?k)"
    using b(2) by (simp only: of_int_le_iff)
  finally have "1 / q \<le> 2 ^ nat ?k" by simp
  with assms have "1 / 2 ^ nat ?k \<le> q"
    by (simp add: field_simps)
  moreover have "pow2 (- ?k) = 1 / 2 ^ nat ?k" using kp by (simp add: pow2_def)
  ultimately have lo: "pow2 (ilog2 q) \<le> q" using il by simp
  have "(of_int (2 ^ nat (?k - 1)) :: rat) \<le> of_int (?c - 1)"
    using b(1) by (simp only: of_int_le_iff)
  moreover have "of_int (?c - 1) < 1 / q" by linarith
  ultimately have "2 ^ nat (?k - 1) < 1 / q" by simp
  with assms have "q < 1 / 2 ^ nat (?k - 1)"
    by (simp add: field_simps)
  moreover have "pow2 (- ?k + 1) = 1 / 2 ^ nat (?k - 1)"
  proof (cases "?k = 1")
    case True
    then show ?thesis by (simp add: pow2_def)
  next
    case False
    with kp have "- ?k + 1 < 0" by simp
    moreover have "nat (- (- ?k + 1)) = nat (?k - 1)" by simp
    ultimately show ?thesis by (simp add: pow2_def)
  qed
  ultimately have "q < pow2 (ilog2 q + 1)" using il by simp
  with lo show ?thesis by simp
qed

lemma rne_of_int: "rne (of_int k) = k"
  by (simp add: rne_def Let_def)

lemma rne_bound: "\<bar>of_int (rne x) - x\<bar> \<le> 1 / 2"
proof -
  have "of_int \<lfloor>x\<rfloor> \<le> x" "x < of_int \<lfloor>x\<rfloor> + 1" by linarith+
  then show ?thesis by (auto simp add: rne_def Let_def)
qed

lemma rne_lower: "of_int k \<le> x \<Longrightarrow> k \<le> rne x"
proof -
  assume a: "of_int k \<le> x"
  then have "k \<le> \<lfloor>x\<rfloor>" by (simp add: le_floor_iff)
  then show ?thesis by (auto simp add: rne_def Let_def)
qed

lemma round64_error:
  assumes "q \<noteq> 0" and "round64 q = Fin r"
  shows "\<bar>r - q\<bar> \<le> pow2 (max (ilog2 \<bar>q\<bar>) (- 1022) - 52) / 2"
proof -
  define e where "e = max (ilog2 \<bar>q\<bar>) (- 1022) - 52"
  from assms have r: "r = of_int (rne (q / pow2 e)) * pow2 e"
    by (auto simp add: round64_def Let_def e_def split: if_splits)
  have "r - q = (of_int (rne (q / pow2 e)) - q / pow2 e) * pow2 e"
    using pow2_pos [of e] by (simp add: r field_simps)
  then have "\<bar>r - q\<bar> = \<bar>of_int (rne (q / pow2 e)) - q / pow2 e\<bar> * pow2 e"
    using pow2_pos [of e] by (simp add: abs_mult)
  also have "\<dots> \<le> (1 / 2) * pow2 e"
    using rne_bound [of "q / pow2 e"] pow2_pos [of e] by (simp add: mult_right_mono)
  finally show ?thesis by (simp add: e_def)
qed

lemma pow2_less_imp: "pow2 a < pow2 b \<Longrightarrow> a < b"
  using pow2_mono [of b a] by (cases "a < b") auto

lemma round64_of_int:
  assumes bound: "\<bar>n\<bar> \<le> 2 ^ 53"
  shows "round64 (of_int n) = Fin (of_int n)"
proof (cases "n = 0")
  case True
  then show ?thesis by (simp add: round64_def)
next
  case False
  let ?q = "of_int n :: rat"
  let ?e0 = "ilog2 \<bar>?q\<bar>"
  from False have qpos: "0 < \<bar>?q\<bar>" by simp
  from False have "1 \<le> \<bar>n\<bar>" by simp
  then have "(of_int 1 :: rat) \<le> of_int \<bar>n\<bar>" by (simp only: of_int_le_iff)
  then have q1: "1 \<le> \<bar>?q\<bar>" by simp
  from bound have "(of_int \<bar>n\<bar> :: rat) \<le> of_int (2 ^ 53)" by (simp only: of_int_le_iff)
  then have q53: "\<bar>?q\<bar> \<le> 2 ^ 53" by simp
  note ib = ilog2_bounds [OF qpos]
  have e0_lo: "0 \<le> ?e0"
  proof -
    from ib q1 have "pow2 0 < pow2 (?e0 + 1)" by (simp add: pow2_def)
    then have "0 < ?e0 + 1" by (rule pow2_less_imp)
    then show ?thesis by simp
  qed
  have e0_hi: "?e0 \<le> 53"
  proof (rule ccontr)
    assume "\<not> ?e0 \<le> 53"
    then have "54 \<le> ?e0" by simp
    then have "pow2 54 \<le> pow2 ?e0" by (rule pow2_mono)
    with ib q53 have "pow2 54 \<le> (2::rat) ^ 53" by linarith
    then show False by (simp add: pow2_def)
  qed
  define e where "e = max ?e0 (- 1022) - 52"
  from e0_lo have e_eq: "e = ?e0 - 52" by (simp add: e_def)
  have exact: "of_int (rne (?q / pow2 e)) * pow2 e = ?q"
  proof (cases "e \<le> 0")
    case True
    then have pe: "pow2 e = 1 / 2 ^ nat (- e)"
      by (cases "e = 0") (simp_all add: pow2_def)
    then have "?q / pow2 e = of_int (n * 2 ^ nat (- e))" by simp
    then have "rne (?q / pow2 e) = n * 2 ^ nat (- e)" by (simp only: rne_of_int)
    then show ?thesis using pe by simp
  next
    case False
    with e_eq e0_hi have e1: "e = 1" "?e0 = 53" by simp_all
    from ib e1 have "pow2 53 \<le> \<bar>?q\<bar>" by simp
    with q53 have "\<bar>?q\<bar> = 2 ^ 53" by (simp add: pow2_def)
    then have "(of_int \<bar>n\<bar> :: rat) = of_int (2 ^ 53)" by simp
    then have "\<bar>n\<bar> = 2 ^ 53" by (simp only: of_int_eq_iff)
    then have "n = 2 ^ 53 \<or> n = - (2 ^ 53)" by linarith
    then show ?thesis
    proof
      assume n: "n = 2 ^ 53"
      have "rne (2 ^ 53 / 2) = 2 ^ 52"
        using rne_of_int [of "2 ^ 52"] by simp
      then show ?thesis using e1 n by (simp add: pow2_def)
    next
      assume n: "n = - (2 ^ 53)"
      have "rne (- (2 ^ 53) / 2) = - (2 ^ 52)"
        using rne_of_int [of "- (2 ^ 52)"] by simp
      then show ?thesis using e1 n by (simp add: pow2_def)
    qed
  qed
  have "\<not> 1024 \<le> ?e0" using e0_hi by simp
  with False exact show ?thesis
    by (simp add: round64_def Let_def e_def)
qed

lemma round64_lower:
  assumes "2 ^ 53 \<le> q"
  shows "round64 q = PInf \<or> (\<exists>r. round64 q = Fin r \<and> 2 ^ 53 \<le> r)"
proof -
  from assms have qpos: "0 < q" by (smt (verit) zero_less_power zero_less_numeral less_le_trans)
  then have absq: "\<bar>q\<bar> = q" by simp
  let ?e0 = "ilog2 q"
  note ib = ilog2_bounds [OF qpos]
  have e0: "53 \<le> ?e0"
  proof -
    from ib assms have "pow2 53 < pow2 (?e0 + 1)" by (simp add: pow2_def)
    then have "53 < ?e0 + 1" by (rule pow2_less_imp)
    then show ?thesis by simp
  qed
  define e where "e = max ?e0 (- 1022) - 52"
  from e0 have e_eq: "e = ?e0 - 52" by (simp add: e_def)
  define r where "r = of_int (rne (q / pow2 e)) * pow2 e"
  have split: "pow2 ?e0 = pow2 52 * pow2 e"
    using pow2_add [of 52 e] e_eq by simp
  have "pow2 52 * pow2 e \<le> q" using ib split by simp
  then have "pow2 52 \<le> q / pow2 e"
    using pow2_pos [of e] by (simp add: field_simps)
  then have "of_int (2 ^ 52) \<le> q / pow2 e" by (simp add: pow2_def)
  then have "2 ^ 52 \<le> rne (q / pow2 e)" by (rule rne_lower)
  then have "(of_int (2 ^ 52) :: rat) \<le> of_int (rne (q / pow2 e))"
    by (simp only: of_int_le_iff)
  then have "pow2 52 * pow2 e \<le> r"
    using pow2_pos [of e] by (simp add: r_def pow2_def)
  then have "pow2 ?e0 \<le> r" using split by simp
  moreover have "pow2 53 \<le> pow2 ?e0" using e0 by (rule pow2_mono)
  ultimately have rlo: "2 ^ 53 \<le> r" by (simp add: pow2_def)
  have "round64 q = (if 1024 \<le> ilog2 \<bar>r\<bar> then PInf else Fin r)"
    using qpos absq by (simp add: round64_def Let_def e_def r_def)
  with rlo show ?thesis by auto
qed

lemma fadd_of_int:
  "\<bar>a + b\<bar> \<le> 2 ^ 53 \<Longrightarrow> fadd (Fin (of_int a)) (Fin (of_int b)) = Fin (of_int (a + b))"
  using round64_of_int [of "a + b"] by simp

subsection \<open>Comparisons, states and the admission check\<close>

lemma fgt_not_NaN: "fgt x y \<Longrightarrow> x \<noteq> NaN \<and> y \<noteq> NaN"
  by (cases x; cases y) (simp_all add: fgt_def)

lemma fgt_asym: "fgt x y \<Longrightarrow> \<not> fgt y x"
  by (cases x; cases y) (auto simp add: fgt_def)

lemma fadd_not_NaN: "fadd x y \<noteq> NaN \<Longrightarrow> x \<noteq> NaN \<and> y \<noteq> NaN"
  by (cases x; cases y) simp_all

lemma fadd_NaN_cases:
  "x \<noteq> NaN \<Longrightarrow> y \<noteq> NaN \<Longrightarrow> x \<noteq> NInf \<Longrightarrow> y \<noteq> NInf \<Longrightarrow> fadd x y \<noteq> NaN"
  by (cases x; cases y) (simp_all add: round64_def Let_def)

lemma fle_iff_not_fgt: "x \<noteq> NaN \<Longrightarrow> y \<noteq> NaN \<Longrightarrow> fle x y \<longleftrightarrow> \<not> fgt x y"
  by (cases x; cases y) (auto simp add: fgt_def)

lemma state_consts_distinct:
  "StateProposed \<noteq> StateApproved" "StateProposed \<noteq> StateInvested"
  "StateProposed \<noteq> StateDisbursed" "StateApproved \<noteq> StateInvested"
  "StateApproved \<noteq> StateDisbursed" "StateInvested \<noteq> StateDisbursed"
  by (simp_all add: StateProposed_def StateApproved_def StateInvested_def StateDisbursed_def)

lemma state_le_refl: "state_le s s"
  by (simp add: state_le_def)

lemma state_le_steps:
  "state_le StateProposed StateApproved"
  "state_le StateApproved StateInvested"
  "state_le StateInvested StateDisbursed"
  using state_consts_distinct by (simp_all add: state_le_def state_rank_def)

lemma Approve_state:
  "State (snd (Approve l p e d now)) = (if State l = StateProposed then StateApproved else State l)"
  by (simp add: Approve_def CanBeApproved_def)

lemma MarkAsInvested_state:
  "State (MarkAsInvested l now) = (if State l = StateApproved then StateInvested else State l)"
  by (simp add: MarkAsInvested_def)

lemma Disburse_state:
  "State (snd (Disburse l doc e d now)) =
     (if State l = StateInvested then StateDisbursed else State l)"
  by (simp add: Disburse_def CanBeDisbursed_def)

lemma example_loan_fields:
  "State (example_loan p s) = s" "PrincipalAmount (example_loan p s) = Fin p"
  by (simp_all add: example_loan_def)

text \<open>The three outcomes of \<open>ValidateInvestmentAmount\<close>, in the order of its tests.\<close>

lemma Validate_cases:
  "ValidateInvestmentAmount l amount ct =
     (if fle amount (Fin 0) then Some ''investment amount must be greater than zero''
      else if fgt (fadd ct amount) (PrincipalAmount l)
        then Some (''investment amount exceeds remaining loan amount: remaining '' @
                   string_of_rune (float64_to_int32 (fsub (PrincipalAmount l) ct)))
      else None)"
  by (simp add: ValidateInvestmentAmount_def Let_def)

lemma Validate_None_iff:
  "ValidateInvestmentAmount l amount ct = None \<longleftrightarrow>
     \<not> fle amount (Fin 0) \<and> \<not> fgt (fadd ct amount) (PrincipalAmount l)"
  by (simp add: Validate_cases)

text \<open>
  Whole amounts. Against a principal that is a whole number below \<open>2^53\<close>, a whole amount
  that passes the check keeps the exact total within the principal: below \<open>2^53\<close> the
  float64 sum of two whole numbers is exact, and from \<open>2^53\<close> upwards it is above the
  principal.
\<close>

lemma whole_step:
  assumes P: "0 < P" "P < 2 ^ 53" and a: "0 < a"
    and adm: "\<not> fgt (fadd (Fin (of_int t)) (Fin (of_int a))) (Fin (of_int P))"
  shows "t + a \<le> P"
proof (rule ccontr)
  assume "\<not> t + a \<le> P"
  then have gt: "P < t + a" by simp
  show False
  proof (cases "t + a \<le> 2 ^ 53")
    case True
    with gt P have "\<bar>t + a\<bar> \<le> 2 ^ 53" by simp
    then have "fadd (Fin (of_int t)) (Fin (of_int a)) = Fin (of_int (t + a))"
      by (rule fadd_of_int)
    with gt adm show False by (simp add: fgt_def)
  next
    case False
    then have "(of_int (2 ^ 53) :: rat) \<le> of_int (t + a)"
      by (simp only: of_int_le_iff)
    then have big: "(2 ^ 53 :: rat) \<le> of_int t + of_int a" by simp
    from P have "(of_int P :: rat) < of_int (2 ^ 53)" by (simp only: of_int_less_iff)
    then have Pr: "(of_int P :: rat) < 2 ^ 53" by simp
    from round64_lower [OF big]
    have "fgt (round64 (of_int t + of_int a)) (Fin (of_int P))"
      using Pr by (auto simp add: fgt_def)
    with adm show False by simp
  qed
qed

lemma Validate_whole:
  assumes P: "PrincipalAmount l = Fin (of_int P)" "0 < P" "P < 2 ^ 53"
    and v: "ValidateInvestmentAmount l (Fin (of_int a)) (Fin (of_int t)) = None"
  shows "0 < a \<and> t + a \<le> P"
proof -
  from v have apos: "0 < a" by (simp add: Validate_None_iff)
  from v P(1) have "\<not> fgt (fadd (Fin (of_int t)) (Fin (of_int a))) (Fin (of_int P))"
    by (simp add: Validate_None_iff)
  from whole_step [OF P(2) P(3) apos this] apos show ?thesis by simp
qed

text \<open>
  One aggregate that returns the exact sum of whole amounts: the left-to-right float64
  sum, while the sum stays below \<open>2^53\<close>.
\<close>

lemma foldl_fadd_whole:
  "\<forall>x\<in>set xs. 0 < x \<Longrightarrow> 0 \<le> t \<Longrightarrow> t + sum_list xs < 2 ^ 53 \<Longrightarrow>
   foldl fadd (Fin (of_int t)) (map (\<lambda>a. Fin (of_int a)) xs) = Fin (of_int (t + sum_list xs))"
proof (induction xs arbitrary: t)
  case Nil
  then show ?case by simp
next
  case (Cons x xs)
  from Cons.prems have xpos: "0 < x" and rest: "\<forall>y\<in>set xs. 0 < y" by simp_all
  from rest have "0 \<le> sum_list xs" by (intro sum_list_nonneg) (auto intro: less_imp_le)
  with Cons.prems xpos have "\<bar>t + x\<bar> \<le> 2 ^ 53" by simp
  then have step: "fadd (Fin (of_int t)) (Fin (of_int x)) = Fin (of_int (t + x))"
    by (rule fadd_of_int)
  from Cons.prems xpos have "0 \<le> t + x" "t + x + sum_list xs < 2 ^ 53" by simp_all
  from Cons.IH [OF rest this] step show ?case by (simp add: add.assoc)
qed

text \<open>
  The invariant of the ledger for whole amounts, for any aggregate that is exact on
  them. Induction on the amounts still to come, the stored amounts generalised.
\<close>

lemma admit_all_whole:
  assumes P: "PrincipalAmount l = Fin (of_int P)" "0 < P" "P < 2 ^ 53"
    and exact_sum: "\<And>xs. xs \<noteq> [] \<Longrightarrow> \<forall>x\<in>set xs. 0 < x \<Longrightarrow> sum_list xs \<le> P \<Longrightarrow>
        sumAgg (map (\<lambda>a. Fin (of_int a)) xs) = Fin (of_int (sum_list xs))"
  shows "admit_all sumAgg l (map (\<lambda>a. Fin (of_int a)) stored) (map (\<lambda>a. Fin (of_int a)) amounts) \<Longrightarrow>
         \<forall>x\<in>set stored. 0 < x \<Longrightarrow> sum_list stored \<le> P \<Longrightarrow>
         sum_list stored + sum_list amounts \<le> P \<and> (\<forall>x\<in>set amounts. 0 < x)"
proof (induction amounts arbitrary: stored)
  case Nil
  then show ?case by simp
next
  case (Cons a amounts)
  let ?f = "\<lambda>a. Fin (of_int a)"
  have tot: "GetTotalByLoanID sumAgg (map ?f stored) = Fin (of_int (sum_list stored))"
  proof (cases "stored = []")
    case True
    then show ?thesis by (simp add: GetTotalByLoanID_def)
  next
    case False
    from exact_sum [OF False Cons.prems(2) Cons.prems(3)] False show ?thesis
      by (simp add: GetTotalByLoanID_def)
  qed
  from Cons.prems(1) tot
  have v: "ValidateInvestmentAmount l (Fin (of_int a)) (Fin (of_int (sum_list stored))) = None"
    and rest: "admit_all sumAgg l (map ?f (stored @ [a])) (map ?f amounts)"
    by simp_all
  from Validate_whole [OF P v] have apos: "0 < a" and le: "sum_list stored + a \<le> P"
    by simp_all
  from Cons.prems(2) apos have pos': "\<forall>x\<in>set (stored @ [a]). 0 < x" by simp
  from le have le': "sum_list (stored @ [a]) \<le> P" by simp
  from Cons.IH [OF rest pos' le'] apos show ?case by (simp add: add.assoc)
qed

lemma validateEmployeeID_short:
  "length employeeID < 3 \<Longrightarrow>
   validateEmployeeIDAndDateFormat deps employeeID dateField =
     Inl ''employee ID must be at least 3 characters''"
  by (simp add: validateEmployeeIDAndDateFormat_def)

lemma validateEmployeeID_update:
  "validateEmployeeIDAndDateFormat
     (deps\<lparr>saveUploadedFile := sv, loanUsecase_ApproveLoan := uc\<rparr>) e d =
   validateEmployeeIDAndDateFormat deps e d"
  by (simp add: validateEmployeeIDAndDateFormat_def)

lemma validateUploadedFile_update:
  "validateUploadedFile
     (deps\<lparr>saveUploadedFile := sv, loanUsecase_ApproveLoan := uc\<rparr>) h exts ft =
   validateUploadedFile deps h exts ft"
  by (simp add: validateUploadedFile_def)

section \<open>The funding ceiling\<close>

text \<open>
  C1, for whole amounts. Let the principal be a whole number, strictly positive and below
  \<open>2^53\<close>, and let the aggregate of the repository return the exact sum of whole positive
  amounts whose sum is within the principal. Then for every list of whole amounts, each admitted
  by \<open>ValidateInvestmentAmount\<close> against the repository's total of the amounts admitted
  before it, the sum of all admitted amounts never exceeds the principal, and every
  admitted amount is strictly positive. Likewise, for whole \<open>amount\<close> and \<open>currentTotal\<close>,
  \<open>ValidateInvestmentAmount\<close> succeeds only when \<open>currentTotal + amount \<le> PrincipalAmount\<close>.
\<close>

theorem funding_ceiling_whole:
  assumes principal: "PrincipalAmount l = Fin (of_int P)" "0 < P" "P < 2 ^ 53"
    and exact_sum: "\<And>xs. xs \<noteq> [] \<Longrightarrow> \<forall>x\<in>set xs. 0 < x \<Longrightarrow> sum_list xs \<le> P \<Longrightarrow>
        sumAgg (map (\<lambda>a. Fin (of_int a)) xs) = Fin (of_int (sum_list xs))"
  shows "(admit_all sumAgg l [] (map (\<lambda>a. Fin (of_int a)) amounts) \<longrightarrow>
            sum_list amounts \<le> P \<and> (\<forall>x\<in>set amounts. 0 < x))
       \<and> (ValidateInvestmentAmount l (Fin (of_int a)) (Fin (of_int t)) = None \<longrightarrow>
            0 < a \<and> t + a \<le> P)"
proof (intro conjI impI)
  assume adm: "admit_all sumAgg l [] (map (\<lambda>a. Fin (of_int a)) amounts)"
  then have adm': "admit_all sumAgg l (map (\<lambda>a. Fin (of_int a)) [])
      (map (\<lambda>a. Fin (of_int a)) amounts)" by simp
  have r: "sum_list [] + sum_list amounts \<le> P \<and> (\<forall>x\<in>set amounts. 0 < x)"
    using principal(2)
    by (intro admit_all_whole [OF principal exact_sum adm']) simp_all
  from r show "sum_list amounts \<le> P" by simp
  from r show "\<forall>x\<in>set amounts. 0 < x" by simp
next
  assume v: "ValidateInvestmentAmount l (Fin (of_int a)) (Fin (of_int t)) = None"
  from Validate_whole [OF principal v] show "0 < a" and "t + a \<le> P" by simp_all
qed

text \<open>
  Scenario A as the instance, 600,000 and then 400,000 against a principal of 1,000,000,
  with the left-to-right float64 sum as the aggregate.
\<close>

theorem funding_ceiling_whole_witness:
  "PrincipalAmount (example_loan 1000000 StateApproved) = Fin (of_int 1000000)
   \<and> (0::int) < 1000000 \<and> (1000000::int) < 2 ^ 53
   \<and> admit_all (foldl fadd (Fin 0)) (example_loan 1000000 StateApproved) []
        (map (\<lambda>a. Fin (of_int a)) [600000, 400000])
   \<and> sum_list [600000, 400000 :: int] \<le> 1000000
   \<and> ValidateInvestmentAmount (example_loan 1000000 StateApproved)
        (Fin (of_int 400000)) (Fin (of_int 600000)) = None
   \<and> (0::int) < 400000 \<and> (600000::int) + 400000 \<le> 1000000"
proof -
  have p: "PrincipalAmount (example_loan 1000000 StateApproved) = Fin (of_int 1000000)"
    by (simp add: example_loan_fields)
  have exact: "foldl fadd (Fin 0) (map (\<lambda>a. Fin (of_int a)) xs) = Fin (of_int (sum_list xs))"
    if "xs \<noteq> []" "\<forall>x\<in>set xs. 0 < x" "sum_list xs \<le> 1000000" for xs :: "int list"
    using foldl_fadd_whole [of xs 0] that by simp
  have adm: "admit_all (foldl fadd (Fin 0)) (example_loan 1000000 StateApproved) []
        (map (\<lambda>a. Fin (of_int a)) [600000, 400000])"
    by code_simp
  have v: "ValidateInvestmentAmount (example_loan 1000000 StateApproved)
        (Fin (of_int 400000)) (Fin (of_int 600000)) = None"
    by code_simp
  have P: "(0::int) < 1000000" "(1000000::int) < 2 ^ 53" by simp_all
  from funding_ceiling_whole [of "example_loan 1000000 StateApproved" 1000000
      "foldl fadd (Fin 0)" "[600000, 400000]" 400000 600000, OF p P exact]
  show ?thesis using p adm v by simp
qed

text \<open>
  C1 as stated fails. Against a principal of 1,000,000 an amount of 1,000,000 is admitted
  on an empty ledger. The total of that single row is 1,000,000, and against it a
  further amount of \<open>2^-35\<close> is admitted as well: the float64 sum \<open>1000000 + 2^-35\<close> rounds
  back to 1,000,000, which is not greater than the principal, and an invested loan still
  receives investments. The two admitted amounts add up to more than the principal.
  Also, an amount of NaN is admitted although \<open>0 + NaN \<le> principal\<close> is false.
\<close>

theorem funding_ceiling_counterexample:
  "PrincipalAmount (example_loan 1000000 StateInvested) = Fin 1000000
   \<and> ValidateInvestmentAmount (example_loan 1000000 StateInvested) (Fin 1000000) (Fin 0) = None
   \<and> CanReceiveInvestment (example_loan 1000000 StateInvested) = None
   \<and> ValidateInvestmentAmount (example_loan 1000000 StateInvested)
        (Fin (1 / 2 ^ 35)) (Fin 1000000) = None
   \<and> 1000000 < sum_list [1000000, 1 / 2 ^ 35 :: rat]
   \<and> ValidateInvestmentAmount (example_loan 1000000 StateInvested) NaN (Fin 0) = None
   \<and> \<not> fle (fadd (Fin 0) NaN) (PrincipalAmount (example_loan 1000000 StateInvested))"
  by code_simp


section \<open>The lifecycle\<close>

text \<open>
  C3: forward-only state progression. For every loan, the state after \<open>Approve\<close>,
  \<open>MarkAsInvested\<close> or \<open>Disburse\<close> is the state before or a later one in the order
  proposed, approved, invested, disbursed. \<open>Approve\<close> changes the state only from proposed
  to approved, \<open>MarkAsInvested\<close> only from approved to invested, and \<open>Disburse\<close> only from
  invested to disbursed.
\<close>

theorem forward_only_state:
  "state_le (State l) (State (snd (Approve l p e d now)))
   \<and> state_le (State l) (State (MarkAsInvested l now))
   \<and> state_le (State l) (State (snd (Disburse l doc e' d' now)))
   \<and> State (snd (Approve l p e d now)) =
        (if State l = StateProposed then StateApproved else State l)
   \<and> State (MarkAsInvested l now) =
        (if State l = StateApproved then StateInvested else State l)
   \<and> State (snd (Disburse l doc e' d' now)) =
        (if State l = StateInvested then StateDisbursed else State l)"
  by (simp add: Approve_state MarkAsInvested_state Disburse_state state_le_refl state_le_steps)

theorem forward_only_state_witness:
  "State (snd (Approve (example_loan 1000000 StateProposed)
                 ''uploads/proof_pictures/p.png'' ''EMP001'' 1700000000 1700000100)) = StateApproved
   \<and> State (MarkAsInvested (example_loan 1000000 StateApproved) 1700000100) = StateInvested
   \<and> State (snd (Disburse (example_loan 1000000 StateInvested)
                 ''uploads/signed_agreements/a.pdf'' ''EMP001'' 1700000000 1700000100)) = StateDisbursed
   \<and> State (snd (Approve (example_loan 1000000 StateDisbursed)
                 ''uploads/proof_pictures/p.png'' ''EMP001'' 1700000000 1700000100)) = StateDisbursed"
  using
    forward_only_state [of "example_loan 1000000 StateProposed" "''uploads/proof_pictures/p.png''"
      "''EMP001''" 1700000000 1700000100]
    forward_only_state [of "example_loan 1000000 StateApproved" _ _ _ 1700000100]
    forward_only_state [of "example_loan 1000000 StateInvested" _ _ _ 1700000100
      "''uploads/signed_agreements/a.pdf''" "''EMP001''" 1700000000]
    forward_only_state [of "example_loan 1000000 StateDisbursed" "''uploads/proof_pictures/p.png''"
      "''EMP001''" 1700000000 1700000100]
    state_consts_distinct
  by (simp add: example_loan_fields)

text \<open>
  C7: \<open>Disburse\<close> on a loan whose state is not invested fails with the invalid-transition
  error and returns the loan as it was: state, approval and disbursement evidence and
  timestamps are untouched.
\<close>

theorem Disburse_not_invested:
  "State l \<noteq> StateInvested \<Longrightarrow>
   Disburse l signedAgreementDoc employeeID disbursementDate now =
     (Some ''loan can only be disbursed from invested state'', l)"
  by (simp add: Disburse_def CanBeDisbursed_def)

text \<open>Scenario D: a loan still in the proposed state.\<close>

theorem Disburse_not_invested_witness:
  "State (example_loan 1000000 StateProposed) \<noteq> StateInvested \<and>
   Disburse (example_loan 1000000 StateProposed) ''uploads/signed_agreements/a.pdf'' ''EMP001''
       1700000000 1700000100 =
     (Some ''loan can only be disbursed from invested state'', example_loan 1000000 StateProposed)"
proof -
  have h: "State (example_loan 1000000 StateProposed) \<noteq> StateInvested"
    using state_consts_distinct by (simp add: example_loan_fields)
  show ?thesis
    using h Disburse_not_invested [OF h] by simp
qed

text \<open>
  C10: the frame of \<open>MarkAsInvested\<close>. When the state is not approved the loan is returned
  unchanged in every field, \<open>UpdatedAt\<close> included. When the state is approved only \<open>State\<close>
  (to invested) and \<open>UpdatedAt\<close> change: principal, borrower, rates, agreement link and all
  approval and disbursement evidence are those of the loan before.
\<close>

theorem MarkAsInvested_frame:
  "(State l \<noteq> StateApproved \<longrightarrow> MarkAsInvested l now = l)
   \<and> (State l = StateApproved \<longrightarrow>
        MarkAsInvested l now = l\<lparr>State := StateInvested, UpdatedAt := now\<rparr>)"
  by (simp add: MarkAsInvested_def)

theorem MarkAsInvested_frame_witness:
  "State (example_loan 1000000 StateProposed) \<noteq> StateApproved
   \<and> MarkAsInvested (example_loan 1000000 StateProposed) 1700000100 =
       example_loan 1000000 StateProposed
   \<and> State (example_loan 1000000 StateApproved) = StateApproved
   \<and> MarkAsInvested (example_loan 1000000 StateApproved) 1700000100 =
       (example_loan 1000000 StateApproved)\<lparr>State := StateInvested, UpdatedAt := 1700000100\<rparr>"
proof -
  have a: "State (example_loan 1000000 StateProposed) \<noteq> StateApproved"
    using state_consts_distinct by (simp add: example_loan_fields)
  have b: "State (example_loan 1000000 StateApproved) = StateApproved"
    by (simp add: example_loan_fields)
  show ?thesis
    using a b
      MarkAsInvested_frame [of "example_loan 1000000 StateProposed" 1700000100]
      MarkAsInvested_frame [of "example_loan 1000000 StateApproved" 1700000100]
    by simp
qed

text \<open>
  C4: auto-promotion exactness. The fully-funded test is exact float64 equality of the
  total with the principal. A loan that is not yet invested is in the invested state
  after the promotion step if and only if it was approved and the total equals the
  principal; a total strictly below the principal leaves the loan as it was.
\<close>

theorem promotion_exact:
  "IsFullyInvested l totalInvested = feq totalInvested (PrincipalAmount l)
   \<and> (State l \<noteq> StateInvested \<longrightarrow>
        (State (promoteIfFullyFunded l totalInvested now) = StateInvested \<longleftrightarrow>
           State l = StateApproved \<and> feq totalInvested (PrincipalAmount l)))
   \<and> (flt totalInvested (PrincipalAmount l) \<longrightarrow> promoteIfFullyFunded l totalInvested now = l)"
proof (intro conjI impI)
  show "IsFullyInvested l totalInvested = feq totalInvested (PrincipalAmount l)"
    by (simp add: IsFullyInvested_def)
next
  assume "State l \<noteq> StateInvested"
  then show "State (promoteIfFullyFunded l totalInvested now) = StateInvested \<longleftrightarrow>
           State l = StateApproved \<and> feq totalInvested (PrincipalAmount l)"
    by (simp add: promoteIfFullyFunded_def MarkAsInvested_def IsFullyInvested_def)
next
  assume lt: "flt totalInvested (PrincipalAmount l)"
  have "\<not> feq totalInvested (PrincipalAmount l)"
    using lt by (cases totalInvested; cases "PrincipalAmount l") (auto simp add: feq_def)
  then show "promoteIfFullyFunded l totalInvested now = l"
    by (simp add: promoteIfFullyFunded_def IsFullyInvested_def)
qed

text \<open>Scenario A: a total of 1,000,000 promotes the approved loan, a total of 600,000 does not.\<close>

theorem promotion_exact_witness:
  "State (example_loan 1000000 StateApproved) \<noteq> StateInvested
   \<and> State (promoteIfFullyFunded (example_loan 1000000 StateApproved) (Fin 1000000) 1700000000)
       = StateInvested
   \<and> feq (Fin 1000000) (PrincipalAmount (example_loan 1000000 StateApproved))
   \<and> flt (Fin 600000) (PrincipalAmount (example_loan 1000000 StateApproved))
   \<and> promoteIfFullyFunded (example_loan 1000000 StateApproved) (Fin 600000) 1700000000
       = example_loan 1000000 StateApproved"
proof -
  have a: "State (example_loan 1000000 StateApproved) \<noteq> StateInvested"
    using state_consts_distinct by (simp add: example_loan_fields)
  have b: "feq (Fin 1000000) (PrincipalAmount (example_loan 1000000 StateApproved))"
    by (simp add: example_loan_fields feq_def)
  have c: "flt (Fin 600000) (PrincipalAmount (example_loan 1000000 StateApproved))"
    by (simp add: example_loan_fields)
  show ?thesis
    using a b c
      promotion_exact [of "example_loan 1000000 StateApproved" "Fin 1000000" 1700000000]
      promotion_exact [of "example_loan 1000000 StateApproved" "Fin 600000" 1700000000]
    by (simp add: example_loan_fields)
qed


section \<open>The admission rule\<close>

text \<open>
  C5, as the code has it. For a loan in an investable state (approved or invested), and
  for an amount, a current total and a principal that are not NaN, the total not being
  minus infinity: the state check passes, and \<open>ValidateInvestmentAmount\<close> succeeds if and
  only if the amount is strictly positive and the float64 sum of total and amount is
  \<open>\<le>\<close> the principal. It fails with the non-positive-amount error when the amount is
  \<open>\<le> 0\<close>, and with the overfunding error when the amount is positive and the float64 sum
  exceeds the principal.
\<close>

theorem admission_rule:
  assumes investable: "State l = StateApproved \<or> State l = StateInvested"
    and numbers: "amount \<noteq> NaN" "ct \<noteq> NaN" "PrincipalAmount l \<noteq> NaN"
    and not_minus_inf: "ct \<noteq> NInf"
  shows "CanReceiveInvestment l = None
    \<and> (ValidateInvestmentAmount l amount ct = None \<longleftrightarrow>
         fgt amount (Fin 0) \<and> fle (fadd ct amount) (PrincipalAmount l))
    \<and> (fle amount (Fin 0) \<longrightarrow>
         ValidateInvestmentAmount l amount ct = Some ''investment amount must be greater than zero'')
    \<and> (fgt amount (Fin 0) \<and> fgt (fadd ct amount) (PrincipalAmount l) \<longrightarrow>
         (\<exists>msg. ValidateInvestmentAmount l amount ct = Some msg
            \<and> prefix ''investment amount exceeds remaining loan amount'' msg))"
proof -
  have pos_iff: "fgt amount (Fin 0) \<longleftrightarrow> \<not> fle amount (Fin 0)"
    using numbers(1) fle_iff_not_fgt [of amount "Fin 0"] by simp
  have sum_num: "fadd ct amount \<noteq> NaN" if "fgt amount (Fin 0)"
  proof -
    from that have "amount \<noteq> NInf" by (auto simp add: fgt_def)
    with numbers not_minus_inf show ?thesis using fadd_NaN_cases by blast
  qed
  have c1: "CanReceiveInvestment l = None"
    using investable by (auto simp add: CanReceiveInvestment_def)
  have c2: "ValidateInvestmentAmount l amount ct = None \<longleftrightarrow>
         fgt amount (Fin 0) \<and> fle (fadd ct amount) (PrincipalAmount l)"
    using pos_iff sum_num numbers(3) fle_iff_not_fgt [of "fadd ct amount" "PrincipalAmount l"]
    by (auto simp add: Validate_None_iff)
  have c3: "fle amount (Fin 0) \<longrightarrow>
         ValidateInvestmentAmount l amount ct = Some ''investment amount must be greater than zero''"
    by (simp add: Validate_cases)
  have c4: "fgt amount (Fin 0) \<and> fgt (fadd ct amount) (PrincipalAmount l) \<longrightarrow>
         (\<exists>msg. ValidateInvestmentAmount l amount ct = Some msg
            \<and> prefix ''investment amount exceeds remaining loan amount'' msg)"
    using pos_iff by (auto simp add: Validate_cases)
  from c1 c2 c3 c4 show ?thesis by blast
qed

theorem admission_rule_witness:
  "(State (example_loan 1000000 StateApproved) = StateApproved
      \<or> State (example_loan 1000000 StateApproved) = StateInvested)
   \<and> Fin 400000 \<noteq> NaN \<and> Fin 600000 \<noteq> NaN \<and> Fin 600000 \<noteq> NInf
   \<and> PrincipalAmount (example_loan 1000000 StateApproved) \<noteq> NaN
   \<and> CanReceiveInvestment (example_loan 1000000 StateApproved) = None
   \<and> ValidateInvestmentAmount (example_loan 1000000 StateApproved) (Fin 400000) (Fin 600000) = None
   \<and> fgt (Fin 400000) (Fin 0)
   \<and> fle (fadd (Fin 600000) (Fin 400000)) (PrincipalAmount (example_loan 1000000 StateApproved))"
proof -
  have st: "State (example_loan 1000000 StateApproved) = StateApproved
      \<or> State (example_loan 1000000 StateApproved) = StateInvested"
    by (simp add: example_loan_fields)
  have v: "ValidateInvestmentAmount (example_loan 1000000 StateApproved) (Fin 400000) (Fin 600000) = None"
    by code_simp
  show ?thesis
    using st v admission_rule [OF st, of "Fin 400000" "Fin 600000"]
    by (simp add: example_loan_fields)
qed

text \<open>
  C5 as stated fails: on an approved loan an amount of NaN passes both tests, since every
  comparison with NaN is false, and NaN is not strictly positive. Read with exact
  addition the rule fails as well: against a total of 1,000,000 an amount of \<open>2^-35\<close> is
  admitted, though \<open>1000000 + 2^-35\<close> is above the principal of 1,000,000.
\<close>

theorem admission_rule_counterexample:
  "(State (example_loan 1000000 StateApproved) = StateApproved
      \<or> State (example_loan 1000000 StateApproved) = StateInvested)
   \<and> CanReceiveInvestment (example_loan 1000000 StateApproved) = None
   \<and> ValidateInvestmentAmount (example_loan 1000000 StateApproved) NaN (Fin 0) = None
   \<and> \<not> fgt NaN (Fin 0)
   \<and> ValidateInvestmentAmount (example_loan 1000000 StateApproved)
         (Fin (1 / 2 ^ 35)) (Fin 1000000) = None
   \<and> (1000000 :: rat) < 1000000 + 1 / 2 ^ 35"
  by code_simp

text \<open>
  C9: the non-positive test comes first. Whatever the current total and the principal,
  an amount \<open>\<le> 0\<close> gets the non-positive-amount error, and whenever the overfunding error
  is returned the amount is strictly positive.
\<close>

theorem nonpositive_first:
  "(fle amount (Fin 0) \<longrightarrow>
      ValidateInvestmentAmount l amount ct = Some ''investment amount must be greater than zero'')
   \<and> (\<forall>msg. ValidateInvestmentAmount l amount ct = Some msg \<and>
          prefix ''investment amount exceeds remaining loan amount'' msg \<longrightarrow>
          fgt amount (Fin 0))"
proof (intro conjI allI impI)
  assume "fle amount (Fin 0)"
  then show "ValidateInvestmentAmount l amount ct = Some ''investment amount must be greater than zero''"
    by (simp add: Validate_cases)
next
  fix msg
  assume a: "ValidateInvestmentAmount l amount ct = Some msg \<and>
          prefix ''investment amount exceeds remaining loan amount'' msg"
  then have nle: "\<not> fle amount (Fin 0)"
    by (auto simp add: Validate_cases split: if_splits)
  from a nle have "fgt (fadd ct amount) (PrincipalAmount l)"
    by (auto simp add: Validate_cases split: if_splits)
  then have "fadd ct amount \<noteq> NaN" using fgt_not_NaN by blast
  then have "amount \<noteq> NaN" using fadd_not_NaN by blast
  with nle show "fgt amount (Fin 0)"
    using fle_iff_not_fgt [of amount "Fin 0"] by simp
qed

text \<open>
  A negative amount and a zero amount against a total already above the principal, and
  an overfunding amount.
\<close>

theorem nonpositive_first_witness:
  "fle (Fin (- 5)) (Fin 0)
   \<and> ValidateInvestmentAmount (example_loan 1000000 StateApproved) (Fin (- 5)) (Fin 2000000) =
       Some ''investment amount must be greater than zero''
   \<and> ValidateInvestmentAmount (example_loan 1000000 StateApproved) (Fin 0) (Fin 2000000) =
       Some ''investment amount must be greater than zero''
   \<and> prefix ''investment amount exceeds remaining loan amount''
        (the (ValidateInvestmentAmount (example_loan 1000000 StateApproved) (Fin 1000001) (Fin 0)))
   \<and> fgt (Fin 1000001) (Fin 0)"
proof -
  have a: "fle (Fin (- 5)) (Fin 0)" by simp
  have b: "fle (Fin 0) (Fin 0)" by simp
  have c: "prefix ''investment amount exceeds remaining loan amount''
        (the (ValidateInvestmentAmount (example_loan 1000000 StateApproved) (Fin 1000001) (Fin 0)))"
    by code_simp
  show ?thesis
    using a b c
      nonpositive_first [of "Fin (- 5)" "example_loan 1000000 StateApproved" "Fin 2000000"]
      nonpositive_first [of "Fin 0" "example_loan 1000000 StateApproved" "Fin 2000000"]
    by (simp add: fgt_def)
qed

section \<open>The text of the overfunding error\<close>

text \<open>
  C6: what the overfunding error carries. The remaining amount is appended to the
  message as \<^verbatim>\<open>string(rune(remaining))\<close>, one code point and not a number. Against a
  principal of 2,000,000 with nothing invested, an amount of 2,000,001 is refused with a
  message that ends in U+FFFD (2,000,000 is above the last code point); a principal of
  3,000,000 gives the very same message. In the example of the claim, principal
  1,000,000, the message ends in the four bytes of the private-use code point U+F4240.
\<close>

theorem overfunding_message:
  "ValidateInvestmentAmount (example_loan 2000000 StateApproved) (Fin 2000001) (Fin 0) =
     Some (''investment amount exceeds remaining loan amount: remaining '' @
           [CHR 0xEF, CHR 0xBF, CHR 0xBD])
   \<and> ValidateInvestmentAmount (example_loan 3000000 StateApproved) (Fin 3000001) (Fin 0) =
     Some (''investment amount exceeds remaining loan amount: remaining '' @
           [CHR 0xEF, CHR 0xBF, CHR 0xBD])
   \<and> ValidateInvestmentAmount (example_loan 1000000 StateApproved) (Fin 1000001) (Fin 0) =
     Some (''investment amount exceeds remaining loan amount: remaining '' @
           [CHR 0xF3, CHR 0xB4, CHR 0x89, CHR 0x80])"
  by code_simp

section \<open>The approval evidence\<close>

text \<open>
  C8, in bytes. An approve request whose staff identifier is shorter than 3 bytes (the
  length that \<^verbatim>\<open>len\<close> counts) fails validation. The handler answers 400, leaves the world
  as it was, and its result does not depend on the file writer or on the use case:
  neither runs for such a request. When the earlier checks of the request pass, the
  answer is the error of the identifier.
\<close>

theorem ApproveLoan_short_employee_id:
  assumes short: "length (employee_id req) < 3"
  shows "validateEmployeeIDAndDateFormat deps (employee_id req) (approval_date req) =
           Inl ''employee ID must be at least 3 characters''
    \<and> fst (fst (ApproveLoan deps req w)) = 400
    \<and> snd (ApproveLoan deps req w) = w
    \<and> ApproveLoan (deps\<lparr>saveUploadedFile := sv, loanUsecase_ApproveLoan := uc\<rparr>) req w =
        ApproveLoan deps req w
    \<and> (\<forall>loanID header.
          parseInt deps (id_param req) = Some loanID \<and> proof_picture req = Some header \<and>
          validateUploadedFile deps header [''.jpg'', ''.jpeg'', ''.png''] ''proof picture'' = None \<longrightarrow>
          ApproveLoan deps req w =
            ((400, ErrorBody ''employee ID must be at least 3 characters''), w))"
proof -
  note v = validateEmployeeID_short [OF short]
  have a: "fst (fst (ApproveLoan deps req w)) = 400 \<and> snd (ApproveLoan deps req w) = w"
    by (simp add: ApproveLoan_def v split: option.splits)
  have b: "ApproveLoan (deps\<lparr>saveUploadedFile := sv, loanUsecase_ApproveLoan := uc\<rparr>) req w =
        ApproveLoan deps req w"
    by (simp add: ApproveLoan_def v validateEmployeeID_update validateUploadedFile_update
          split: option.splits)
  have c: "\<forall>loanID header.
          parseInt deps (id_param req) = Some loanID \<and> proof_picture req = Some header \<and>
          validateUploadedFile deps header [''.jpg'', ''.jpeg'', ''.png''] ''proof picture'' = None \<longrightarrow>
          ApproveLoan deps req w =
            ((400, ErrorBody ''employee ID must be at least 3 characters''), w)"
    by (simp add: ApproveLoan_def v)
  from v a b c show ?thesis by blast
qed

text \<open>
  The identifier \<open>ab\<close> is refused and the call counter of the world stays at 0; with \<open>abc\<close>
  the same request reaches the use case.
\<close>

theorem ApproveLoan_short_employee_id_witness:
  "length (employee_id (example_form ''ab'')) < 3
   \<and> ApproveLoan example_deps (example_form ''ab'') 0 =
       ((400, ErrorBody ''employee ID must be at least 3 characters''), 0)
   \<and> ApproveLoan example_deps (example_form ''abc'') 0 =
       ((200, LoanBody (toLoanResponse (example_loan 1000000 StateApproved))), 1)"
proof -
  have short: "length (employee_id (example_form ''ab'')) < 3"
    by (simp add: example_form_def)
  have ok: "ApproveLoan example_deps (example_form ''abc'') 0 =
       ((200, LoanBody (toLoanResponse (example_loan 1000000 StateApproved))), 1)"
    by (simp add: ApproveLoan_def example_deps_def example_form_def validateUploadedFile_def
          validateEmployeeIDAndDateFormat_def)
  have pre: "parseInt example_deps (id_param (example_form ''ab'')) = Some 7
     \<and> proof_picture (example_form ''ab'') = Some \<lparr>Filename = ''proof.png'', Size = 1024\<rparr>
     \<and> validateUploadedFile example_deps \<lparr>Filename = ''proof.png'', Size = 1024\<rparr>
          [''.jpg'', ''.jpeg'', ''.png''] ''proof picture'' = None"
    by (simp add: example_deps_def example_form_def validateUploadedFile_def)
  show ?thesis
    using short ok pre
      ApproveLoan_short_employee_id [OF short, of example_deps 0]
    by blast
qed

text \<open>
  C8 as stated fails. The identifier made of the single character U+20AC has one
  character and three bytes: the handler lets it through to the use case. The entity's
  \<open>Approve\<close> checks no identifier and records it as the approving staff.
\<close>

theorem ApproveLoan_characters_counterexample:
  "characters [CHR 0xE2, CHR 0x82, CHR 0xAC] = 1
   \<and> length [CHR 0xE2, CHR 0x82, CHR 0xAC] = 3
   \<and> ApproveLoan example_deps (example_form [CHR 0xE2, CHR 0x82, CHR 0xAC]) 0 =
       ((200, LoanBody (toLoanResponse (example_loan 1000000 StateApproved))), 1)
   \<and> fst (Approve (example_loan 1000000 StateProposed) ''uploads/proof_pictures/p.png''
            [CHR 0xE2, CHR 0x82, CHR 0xAC] 1700000000 1700000100) = None
   \<and> ApprovalEmployeeID (snd (Approve (example_loan 1000000 StateProposed)
            ''uploads/proof_pictures/p.png'' [CHR 0xE2, CHR 0x82, CHR 0xAC] 1700000000 1700000100))
       = Some [CHR 0xE2, CHR 0x82, CHR 0xAC]"
  by code_simp

end
